theory Spec2Isabelle
  imports Complex_Main "HOL-Library.Multiset"
begin

section \<open>The numpy primitives the two operators delegate to\<close>

text \<open>
  Both operators of \<^verbatim>\<open>pylops/basicoperators\<close> are thin layers over numpy calls:
  \<^verbatim>\<open>reshape\<close>, \<^verbatim>\<open>transpose\<close>, \<^verbatim>\<open>ravel\<close>, \<^verbatim>\<open>dot\<close>, \<^verbatim>\<open>conj\<close>, \<^verbatim>\<open>.T\<close>,
  \<^verbatim>\<open>np.unique\<close>, \<^verbatim>\<open>np.prod\<close>, index-array assignment and \<^verbatim>\<open>normalize_axis_index\<close>.
  An array is modelled the way numpy stores it: a flat buffer read through a shape and
  one stride per axis (counted in elements). \<^verbatim>\<open>reshape\<close> of a flat buffer lays
  row-major (C order) strides over it, \<^verbatim>\<open>transpose\<close> permutes shape and strides
  without touching the buffer, and \<^verbatim>\<open>ravel\<close> reads the elements out in C order.
  Every exception of the Python code is a value \<open>Inl e\<close>.
\<close>

datatype error = AxisError | ValueError string | IndexError | AttributeError

record 'a ndarray =
  shape :: "nat list"
  strides :: "nat list"
  data :: "'a list"

text \<open>Row-major strides of a shape: the stride of an axis is the product of the
  extents after it.\<close>

fun c_strides :: "nat list \<Rightarrow> nat list" where
  "c_strides [] = []"
| "c_strides (d # ds) = prod_list ds # c_strides ds"

text \<open>Position in the buffer of the element with multi-index \<open>idx\<close>.\<close>

definition offset :: "nat list \<Rightarrow> nat list \<Rightarrow> nat" where
  "offset strd idx = sum_list (map2 (*) idx strd)"

definition item :: "'a ndarray \<Rightarrow> nat list \<Rightarrow> 'a" where
  "item a idx = data a ! offset (strides a) idx"

text \<open>\<^verbatim>\<open>np.ndindex(*shape)\<close>: every multi-index of a shape, the last axis running
  fastest.\<close>

fun ndindex :: "nat list \<Rightarrow> nat list list" where
  "ndindex [] = [[]]"
| "ndindex (d # ds) = concat (map (\<lambda>i. map ((#) i) (ndindex ds)) [0..<d])"

text \<open>\<^verbatim>\<open>x.reshape(shp)\<close> for a flat \<open>x\<close> and a shape of non-negative extents: numpy
  raises ValueError unless the extents multiply to the length of \<open>x\<close>.\<close>

definition np_reshape :: "'a list \<Rightarrow> nat list \<Rightarrow> error + 'a ndarray" where
  "np_reshape x shp =
     (if prod_list shp = length x
      then Inr \<lparr>shape = shp, strides = c_strides shp, data = x\<rparr>
      else Inl (ValueError ''cannot reshape array''))"

text \<open>\<^verbatim>\<open>a.transpose(axes)\<close>: axis \<open>k\<close> of the result is axis \<open>axes[k]\<close> of \<open>a\<close>. numpy
  raises ValueError when \<open>axes\<close> has the wrong length or repeats an axis, AxisError when
  an axis is out of range.\<close>

definition np_transpose :: "'a ndarray \<Rightarrow> nat list \<Rightarrow> error + 'a ndarray" where
  "np_transpose a axs =
     (if length axs \<noteq> length (shape a) then Inl (ValueError ''axes don't match array'')
      else if list_ex (\<lambda>k. length (shape a) \<le> k) axs then Inl AxisError
      else if \<not> distinct axs then Inl (ValueError ''repeated axis in transpose'')
      else Inr \<lparr>shape = map (\<lambda>k. shape a ! k) axs,
                strides = map (\<lambda>k. strides a ! k) axs,
                data = data a\<rparr>)"

text \<open>\<^verbatim>\<open>a.ravel()\<close>: the elements in C order, as a flat list.\<close>

definition ravel :: "'a ndarray \<Rightarrow> 'a list" where
  "ravel a = map (item a) (ndindex (shape a))"

text \<open>\<^verbatim>\<open>normalize_axis_index(ax, ndim)\<close>: a negative axis counts from the end; an axis
  outside \<open>[-ndim, ndim)\<close> raises AxisError.\<close>

definition normalize_axis_index :: "int \<Rightarrow> nat \<Rightarrow> error + nat" where
  "normalize_axis_index ax ndim =
     (if - int ndim \<le> ax \<and> ax < int ndim
      then Inr (nat (if ax < 0 then ax + int ndim else ax))
      else Inl AxisError)"

text \<open>A list comprehension whose body may raise: the first exception ends it.\<close>

fun mapE :: "('a \<Rightarrow> error + 'b) \<Rightarrow> 'a list \<Rightarrow> error + 'b list" where
  "mapE f [] = Inr []"
| "mapE f (x # xs) =
     (case f x of
        Inl e \<Rightarrow> Inl e
      | Inr y \<Rightarrow> (case mapE f xs of Inl e \<Rightarrow> Inl e | Inr ys \<Rightarrow> Inr (y # ys)))"

text \<open>\<^verbatim>\<open>np.unique\<close>: the distinct elements, sorted.\<close>

definition np_unique :: "nat list \<Rightarrow> nat list" where
  "np_unique xs = sort (remdups xs)"

definition np_zeros :: "nat \<Rightarrow> nat list" where
  "np_zeros n = replicate n 0"

definition np_arange :: "nat \<Rightarrow> nat list" where
  "np_arange n = [0..<n]"

text \<open>\<^verbatim>\<open>a[idx] = vals\<close> for a one-dimensional \<open>a\<close> and a list of indices: an index out of
  range raises IndexError; \<open>vals\<close> is broadcast to the length of \<open>idx\<close>, which works
  when the lengths agree or \<open>vals\<close> has one element, and raises ValueError otherwise;
  the assignments are made in order, so the last one to an index stays.\<close>

definition np_setitem :: "'a list \<Rightarrow> nat list \<Rightarrow> 'a list \<Rightarrow> error + 'a list" where
  "np_setitem a idx vals =
     (if list_ex (\<lambda>i. length a \<le> i) idx then Inl IndexError
      else if length vals = length idx
        then Inr (foldl (\<lambda>b (i, v). b[i := v]) a (zip idx vals))
      else if length vals = 1
        then Inr (foldl (\<lambda>b i. b[i := hd vals]) a idx)
      else Inl (ValueError ''shape mismatch''))"

text \<open>\<^verbatim>\<open>np.prod\<close> over a tuple of extents is computed in 64-bit signed integers and
  wraps around silently.\<close>

definition int64 :: "int \<Rightarrow> int" where
  "int64 v = (v + 2 ^ 63) mod 2 ^ 64 - 2 ^ 63"

definition np_prod :: "nat list \<Rightarrow> int" where
  "np_prod ds = int64 (int (prod_list ds))"

text \<open>The numeric dtypes, split by whether \<^verbatim>\<open>np.iscomplexobj\<close> holds of an array of
  that dtype.\<close>

datatype real_dtype = Bool | Int32 | Int64 | Float32 | Float64

datatype complex_dtype = Complex64 | Complex128

datatype dtype = RealT real_dtype | ComplexT complex_dtype

fun is_complex_dtype :: "dtype \<Rightarrow> bool" where
  "is_complex_dtype (RealT _) = False"
| "is_complex_dtype (ComplexT _) = True"

section \<open>Transpose (\<^verbatim>\<open>pylops/basicoperators/Transpose.py\<close>)\<close>

text \<open>
  \<open>dims\<close> is the tuple of the numbers of samples per dimension, so its entries are
  natural numbers; \<open>axes\<close> are Python integers and may be negative. The fields are
  those the constructor sets, \<open>explicit\<close> and \<open>clinear\<close> being the flags it hands to
  the base class.
\<close>

record Transpose =
  dims :: "nat list"
  axes :: "nat list"
  axesd :: "nat list"
  dimsd :: "nat list"
  shape :: "int \<times> int"
  dtype :: dtype
  explicit :: bool
  clinear :: bool
  name :: string

definition Transpose_init ::
    "nat list \<Rightarrow> int list \<Rightarrow> dtype \<Rightarrow> string \<Rightarrow> error + Transpose" where
  "Transpose_init dims0 axes0 dtype0 name0 =
     (let ndims = length dims0 in
      case mapE (\<lambda>ax. normalize_axis_index ax ndims) axes0 of
        Inl e \<Rightarrow> Inl e
      | Inr axes1 \<Rightarrow>
          if length (np_unique axes1) \<noteq> ndims
          then Inl (ValueError ''axes must contain each direction once'')
          else
            (case np_setitem (np_zeros ndims) axes1 (np_arange ndims) of
               Inl e \<Rightarrow> Inl e
             | Inr axesd1 \<Rightarrow>
                 (case np_setitem (np_zeros ndims) axesd1 dims0 of
                    Inl e \<Rightarrow> Inl e
                  | Inr dimsd1 \<Rightarrow>
                      Inr \<lparr>dims = dims0, axes = axes1, axesd = axesd1, dimsd = dimsd1,
                           shape = (np_prod dimsd1, np_prod dims0), dtype = dtype0,
                           explicit = False, clinear = True, name = name0\<rparr>)))"

definition Transpose_matvec :: "Transpose \<Rightarrow> 'a list \<Rightarrow> error + 'a list" where
  "Transpose_matvec t x =
     (case np_reshape x (dims t) of
        Inl e \<Rightarrow> Inl e
      | Inr y \<Rightarrow> (case np_transpose y (axes t) of Inl e \<Rightarrow> Inl e | Inr y' \<Rightarrow> Inr (ravel y')))"

definition Transpose_rmatvec :: "Transpose \<Rightarrow> 'a list \<Rightarrow> error + 'a list" where
  "Transpose_rmatvec t x =
     (case np_reshape x (dimsd t) of
        Inl e \<Rightarrow> Inl e
      | Inr y \<Rightarrow> (case np_transpose y (axesd t) of Inl e \<Rightarrow> Inl e | Inr y' \<Rightarrow> Inr (ravel y')))"

text \<open>\<open>p\<close> is a permutation of \<^verbatim>\<open>range(n)\<close>.\<close>

definition is_permutation :: "nat \<Rightarrow> nat list \<Rightarrow> bool" where
  "is_permutation n p = (sort p = [0..<n])"

text \<open>\<open>idx\<close> is a multi-index into an array of shape \<open>shp\<close>.\<close>

definition valid_index :: "nat list \<Rightarrow> nat list \<Rightarrow> bool" where
  "valid_index shp idx = list_all2 (<) idx shp"

text \<open>Closed form of reshape, transpose and ravel in a row: the buffer \<open>x\<close>, laid out
  with shape \<open>s\<close>, read in C order through the permuted shape and strides.\<close>

definition permuted_ravel :: "'a list \<Rightarrow> nat list \<Rightarrow> nat list \<Rightarrow> 'a list" where
  "permuted_ravel x s p =
     map (\<lambda>j. x ! offset (map (\<lambda>k. c_strides s ! k) p) j) (ndindex (map (\<lambda>k. s ! k) p))"

section \<open>MatrixMult (\<^verbatim>\<open>pylops/basicoperators/MatrixMult.py\<close>)\<close>

text \<open>
  The wrapped \<open>A\<close> is a matrix: a two-dimensional numpy array or a scipy sparse
  matrix, of which the operator uses the shape, the dtype, the products
  \<^verbatim>\<open>A.dot(x)\<close> and \<^verbatim>\<open>A.T.dot(x)\<close>, whether it is an \<^verbatim>\<open>ndarray\<close>, and, when it is not,
  the array \<^verbatim>\<open>A.data\<close>. It is modelled by its storage, its dtype, its extents and its
  entries in row-major order. Arithmetic is exact: the entries are real or complex
  numbers, and a real entry takes part in a product with a complex one as the complex
  number it is.
\<close>

record 'a matrix =
  nrows :: nat
  ncols :: nat
  elems :: "'a list"



text \<open>How the matrix is stored: a numpy \<^verbatim>\<open>ndarray\<close>, or one of the scipy sparse formats
  that keep their stored entries in an attribute \<^verbatim>\<open>data\<close>.\<close>

datatype storage = Dense | CSR | CSC | COO | BSR | DIA | LIL

text \<open>A matrix carries its storage and its dtype; \<^verbatim>\<open>np.iscomplexobj(A)\<close> looks at the
  dtype of \<open>A\<close> only, for an array as for a sparse matrix.\<close>

datatype matrixobj =
  RealMatrix storage real_dtype "real matrix"
| ComplexMatrix storage complex_dtype "complex matrix"

fun isinstance_ndarray :: "matrixobj \<Rightarrow> bool" where
  "isinstance_ndarray (RealMatrix s _ _) = (s = Dense)"
| "isinstance_ndarray (ComplexMatrix s _ _) = (s = Dense)"

fun iscomplexobj :: "matrixobj \<Rightarrow> bool" where
  "iscomplexobj (RealMatrix _ _ _) = False"
| "iscomplexobj (ComplexMatrix _ _ _) = True"

text \<open>\<^verbatim>\<open>np.iscomplexobj(A.data)\<close> for a sparse \<open>A\<close>: \<^verbatim>\<open>A.data\<close> is an array of the
  dtype of \<open>A\<close>, except in the LIL format, where it is an object array holding one
  Python list per row, which is not a complex object whatever the lists hold.\<close>

fun data_iscomplexobj :: "matrixobj \<Rightarrow> bool" where
  "data_iscomplexobj (RealMatrix _ _ _) = False"
| "data_iscomplexobj (ComplexMatrix s _ _) = (s \<noteq> LIL)"

fun matrix_dtype :: "matrixobj \<Rightarrow> dtype" where
  "matrix_dtype (RealMatrix _ d _) = RealT d"
| "matrix_dtype (ComplexMatrix _ d _) = ComplexT d"

fun matrix_values :: "matrixobj \<Rightarrow> complex matrix" where
  "matrix_values (RealMatrix _ _ M) =
     \<lparr>nrows = nrows M, ncols = ncols M, elems = map complex_of_real (elems M)\<rparr>"
| "matrix_values (ComplexMatrix _ _ M) = M"









fun real_dtype_name :: "real_dtype \<Rightarrow> string" where
  "real_dtype_name Bool = ''bool''"
| "real_dtype_name Int32 = ''int32''"
| "real_dtype_name Int64 = ''int64''"
| "real_dtype_name Float32 = ''float32''"
| "real_dtype_name Float64 = ''float64''"

fun complex_dtype_name :: "complex_dtype \<Rightarrow> string" where
  "complex_dtype_name Complex64 = ''complex64''"
| "complex_dtype_name Complex128 = ''complex128''"

fun dtype_name :: "dtype \<Rightarrow> string" where
  "dtype_name (RealT d) = real_dtype_name d"
| "dtype_name (ComplexT d) = complex_dtype_name d"

text \<open>What \<^verbatim>\<open>logging\<close> is handed: a level and a message.\<close>

datatype level = WARNING

type_synonym log = "(level \<times> string) list"

text \<open>
  The fields are those the constructor sets. Without \<open>otherdims\<close> the Python \<open>dims\<close>
  and \<open>dimsd\<close> are the plain numbers \<^verbatim>\<open>A.shape[1]\<close> and \<^verbatim>\<open>A.shape[0]\<close>, here one-element
  lists, and \<open>otherdims\<close>, \<open>dimsflatten\<close> and \<open>dimsdflatten\<close> are not set, here \<open>None\<close>;
  reading an attribute that is not set raises AttributeError. \<open>dimsflatten\<close> and
  \<open>dimsdflatten\<close> hold \<^verbatim>\<open>np.prod(otherdims)\<close> as numpy computes it, in 64-bit integers
  with the wrap-around, and so does \<open>shape\<close>. The flag \<open>complex\<close> is taken from \<open>A\<close>
  when \<open>A\<close> is an \<^verbatim>\<open>ndarray\<close> and from \<^verbatim>\<open>A.data\<close> otherwise. The constructor returns
  the operator together with what it logged.
\<close>

record MatrixMult =
  A :: matrixobj
  complex :: bool
  otherdims :: "nat list option"
  dims :: "nat list"
  dimsd :: "nat list"
  dimsflatten :: "(int \<times> int) option"
  dimsdflatten :: "(int \<times> int) option"
  reshape :: bool
  shape :: "int \<times> int"
  explicit :: bool
  dtype :: dtype

definition MatrixMult_init :: "matrixobj \<Rightarrow> nat list option \<Rightarrow> dtype \<Rightarrow> MatrixMult \<times> log" where
  "MatrixMult_init A0 otherdims0 dtype0 =
     (let M = matrix_values A0;
          c = (if isinstance_ndarray A0 then iscomplexobj A0 else data_iscomplexobj A0);
          op = (case otherdims0 of
                  None \<Rightarrow>
                    \<lparr>A = A0, complex = c, otherdims = None,
                     dims = [ncols M], dimsd = [nrows M],
                     dimsflatten = None, dimsdflatten = None, reshape = False,
                     shape = (int (nrows M), int (ncols M)), explicit = True,
                     dtype = dtype0\<rparr>
                | Some od \<Rightarrow>
                    \<lparr>A = A0, complex = c, otherdims = Some od,
                     dims = ncols M # od, dimsd = nrows M # od,
                     dimsflatten = Some (int (ncols M), np_prod od),
                     dimsdflatten = Some (int (nrows M), np_prod od), reshape = True,
                     shape = (np_prod (nrows M # od), np_prod (ncols M # od)),
                     explicit = False, dtype = dtype0\<rparr>)
      in if iscomplexobj A0 \<and> \<not> is_complex_dtype dtype0
         then (op\<lparr>dtype := matrix_dtype A0\<rparr>,
               [(WARNING, ''Matrix A is a complex object, dtype cast to ''
                            @ dtype_name (matrix_dtype A0))])
         else (op, []))"



section \<open>Multi-indices and row-major offsets\<close>

lemma length_ndindex: "length (ndindex s) = prod_list s"
  by (induction s) (simp_all add: length_concat comp_def sum_list_triv)

lemma concat_upt_nth:
  "(\<And>i. i < n \<Longrightarrow> length (f i) = m) \<Longrightarrow> i < n \<Longrightarrow> r < m \<Longrightarrow>
     concat (map f [0..<n]) ! (i * m + r) = f i ! r"
proof (induction n)
  case 0
  then show ?case by simp
next
  case (Suc n)
  have len: "length (concat (map f [0..<n])) = n * m"
  proof -
    have "map (length \<circ> f) [0..<n] = replicate n m"
      using Suc.prems(1) by (auto intro!: nth_equalityI)
    then show ?thesis by (simp add: length_concat sum_list_replicate)
  qed
  show ?case
  proof (cases "i < n")
    case True
    have "i * m + r < Suc i * m" using Suc.prems(3) by simp
    also have "\<dots> \<le> n * m" using True by (intro mult_le_mono1) simp
    finally have "i * m + r < n * m" .
    moreover have "concat (map f [0..<n]) ! (i * m + r) = f i ! r"
      using Suc.IH [OF _ True Suc.prems(3)] Suc.prems(1) by simp
    ultimately show ?thesis by (simp add: nth_append len)
  next
    case False
    with Suc.prems have "i = n" by simp
    then show ?thesis by (simp add: nth_append len)
  qed
qed

lemma valid_index_Nil [simp]: "valid_index [] idx = (idx = [])"
  by (simp add: valid_index_def)

lemma valid_index_Cons:
  "valid_index (d # ds) idx = (\<exists>i is. idx = i # is \<and> i < d \<and> valid_index ds is)"
  by (cases idx) (simp_all add: valid_index_def)

lemma offset_Cons [simp]: "offset (s # ss) (i # is) = i * s + offset ss is"
  by (simp add: offset_def)

lemma offset_Nil [simp]: "offset [] idx = 0" "offset s [] = 0"
  by (simp_all add: offset_def)

lemma offset_c_strides:
  "valid_index s idx \<Longrightarrow>
     offset (c_strides s) idx < prod_list s \<and> ndindex s ! offset (c_strides s) idx = idx"
proof (induction s arbitrary: idx)
  case Nil
  then show ?case by simp
next
  case (Cons d ds)
  then obtain i "is" where idx: "idx = i # is" "i < d" "valid_index ds is"
    by (auto simp: valid_index_Cons)
  let ?r = "offset (c_strides ds) is"
  from Cons.IH [OF idx(3)] have r: "?r < prod_list ds" "ndindex ds ! ?r = is" by simp_all
  have "i * prod_list ds + ?r < Suc i * prod_list ds" using r(1) by simp
  also have "\<dots> \<le> d * prod_list ds" using idx(2) by (intro mult_le_mono1) simp
  finally have bound: "i * prod_list ds + ?r < d * prod_list ds" .
  have "concat (map (\<lambda>i. map ((#) i) (ndindex ds)) [0..<d]) ! (i * prod_list ds + ?r)
        = map ((#) i) (ndindex ds) ! ?r"
    by (rule concat_upt_nth) (simp_all add: length_ndindex idx r)
  then show ?case using bound r by (simp add: idx length_ndindex)
qed

lemma ndindex_nth:
  "f < prod_list s \<Longrightarrow>
     valid_index s (ndindex s ! f) \<and> offset (c_strides s) (ndindex s ! f) = f"
proof (induction s arbitrary: f)
  case Nil
  then show ?case by simp
next
  case (Cons d ds)
  let ?P = "prod_list ds"
  from Cons.prems have P: "0 < ?P" by (cases "?P = 0") simp_all
  let ?i = "f div ?P" and ?r = "f mod ?P"
  have i: "?i < d" using Cons.prems P by (simp add: less_mult_imp_div_less mult.commute)
  have r: "?r < ?P" using P by simp
  have "concat (map (\<lambda>i. map ((#) i) (ndindex ds)) [0..<d]) ! (?i * ?P + ?r)
        = map ((#) ?i) (ndindex ds) ! ?r"
    by (rule concat_upt_nth) (simp_all add: length_ndindex i r)
  then have nth: "ndindex (d # ds) ! f = ?i # (ndindex ds ! ?r)"
    using r by (simp add: length_ndindex)
  from Cons.IH [OF r] show ?case
    by (simp add: nth valid_index_Cons i del: ndindex.simps)
qed

lemma valid_index_ndindex: "valid_index s idx \<longleftrightarrow> idx \<in> set (ndindex s)"
proof
  assume "valid_index s idx"
  from offset_c_strides [OF this] show "idx \<in> set (ndindex s)"
    by (metis length_ndindex nth_mem)
next
  assume "idx \<in> set (ndindex s)"
  then obtain f where "f < prod_list s" "ndindex s ! f = idx"
    by (auto simp: in_set_conv_nth length_ndindex)
  with ndindex_nth show "valid_index s idx" by blast
qed

lemma ravel_reshape:
  assumes "np_reshape x s = Inr a"
  shows "ravel a = x"
proof -
  from assms have a: "a = \<lparr>ndarray.shape = s, strides = c_strides s, data = x\<rparr>" and len: "prod_list s = length x"
    by (auto simp: np_reshape_def split: if_splits)
  show ?thesis
    by (rule nth_equalityI) (simp_all add: ravel_def a length_ndindex len item_def ndindex_nth)
qed

section \<open>Permutations of the axes\<close>

lemma is_permutation_mset: "is_permutation n p \<Longrightarrow> mset p = mset [0..<n]"
  unfolding is_permutation_def by (metis mset_sort)

lemma is_permutation_length: "is_permutation n p \<Longrightarrow> length p = n"
  by (drule is_permutation_mset) (metis length_upt mset_eq_length diff_zero)

lemma is_permutation_set: "is_permutation n p \<Longrightarrow> set p = {0..<n}"
  by (drule is_permutation_mset) (metis mset_eq_setD set_upt)

lemma is_permutation_distinct: "is_permutation n p \<Longrightarrow> distinct p"
  by (drule is_permutation_mset) (metis distinct_upt mset_eq_imp_distinct_iff)

lemma is_permutationI: "distinct p \<Longrightarrow> set p = {0..<n} \<Longrightarrow> is_permutation n p"
  unfolding is_permutation_def
  by (metis distinct_remdups_id sorted_list_of_set_sort_remdups sorted_list_of_set_range)

lemma is_permutation_nth_less: "is_permutation n p \<Longrightarrow> k < n \<Longrightarrow> p ! k < n"
  using is_permutation_set [of n p] is_permutation_length [of n p] nth_mem [of k p] by auto

lemma is_permutation_surj: "is_permutation n p \<Longrightarrow> m < n \<Longrightarrow> \<exists>k<n. p ! k = m"
  using is_permutation_set [of n p] is_permutation_length [of n p]
  by (auto simp: in_set_conv_nth set_eq_iff) 

lemma offset_sum_upt:
  "length idx = n \<Longrightarrow> length s = n \<Longrightarrow>
     offset s idx = sum_list (map (\<lambda>k. idx ! k * s ! k) [0..<n])"
  unfolding offset_def
  by (rule arg_cong [where f = sum_list]) (auto intro!: nth_equalityI)

lemma offset_permute:
  assumes "is_permutation n p" "length idx = n" "length s = n"
  shows "offset (map (\<lambda>k. s ! k) p) (map (\<lambda>k. idx ! k) p) = offset s idx"
proof -
  have "offset (map (\<lambda>k. s ! k) p) (map (\<lambda>k. idx ! k) p)
        = sum_list (map (\<lambda>k. idx ! k * s ! k) p)"
    unfolding offset_def
    by (rule arg_cong [where f = sum_list]) (auto intro!: nth_equalityI)
  also have "\<dots> = sum_mset (image_mset (\<lambda>k. idx ! k * s ! k) (mset p))"
    by (metis mset_map sum_mset_sum_list)
  also have "\<dots> = sum_mset (image_mset (\<lambda>k. idx ! k * s ! k) (mset [0..<n]))"
    by (simp only: is_permutation_mset [OF assms(1)])
  also have "\<dots> = sum_list (map (\<lambda>k. idx ! k * s ! k) [0..<n])"
    by (metis mset_map sum_mset_sum_list)
  finally show ?thesis by (simp add: offset_sum_upt [OF assms(2,3)])
qed

lemma foldl_update_length:
  "length (foldl (\<lambda>b (i, v). b[i := v]) a ivs) = length a"
  by (induction ivs arbitrary: a) auto

lemma foldl_update_other:
  "j \<notin> fst ` set ivs \<Longrightarrow> foldl (\<lambda>b (i, v). b[i := v]) a ivs ! j = a ! j"
  by (induction ivs arbitrary: a) auto

lemma foldl_update_nth:
  "distinct idx \<Longrightarrow> length vals = length idx \<Longrightarrow> k < length idx \<Longrightarrow> idx ! k < length a \<Longrightarrow>
     foldl (\<lambda>b (i, v). b[i := v]) a (zip idx vals) ! (idx ! k) = vals ! k"
proof (induction idx arbitrary: a vals k)
  case Nil
  then show ?case by simp
next
  case (Cons i "is")
  then obtain v vs where vals: "vals = v # vs" by (cases vals) auto
  show ?case
  proof (cases k)
    case 0
    have "i \<notin> fst ` set (zip is vs)" using Cons.prems(1) by (auto dest: set_zip_leftD)
    then show ?thesis using Cons.prems by (simp add: vals 0 foldl_update_other)
  next
    case (Suc k')
    then show ?thesis using Cons.prems Cons.IH [of vs k' "a[i := v]"] by (simp add: vals)
  qed
qed

lemma np_setitem_perm:
  assumes "is_permutation n p" "length vals = n" "length a = n"
  shows "\<exists>r. np_setitem a p vals = Inr r \<and> length r = n \<and> (\<forall>k<n. r ! (p ! k) = vals ! k)"
proof -
  have len: "length p = n" and d: "distinct p" using assms(1)
    by (simp_all add: is_permutation_length is_permutation_distinct)
  have inb: "\<not> list_ex (\<lambda>i. length a \<le> i) p"
    using is_permutation_set [OF assms(1)] assms(3) by (auto simp: list_ex_iff)
  show ?thesis
    using inb len d assms is_permutation_nth_less [OF assms(1)]
    by (simp add: np_setitem_def foldl_update_length foldl_update_nth)
qed

text \<open>A list that undoes a permutation index by index is the inverse permutation.\<close>

lemma inverse_permutation:
  assumes p: "is_permutation n p" and r: "length r = n" "\<forall>k<n. r ! (p ! k) = k"
  shows "is_permutation n r" and "\<forall>m<n. p ! (r ! m) = m"
proof -
  show inv: "\<forall>m<n. p ! (r ! m) = m"
    using is_permutation_surj [OF p] r(2) by metis
  have rn: "\<forall>m<n. r ! m < n"
    using is_permutation_surj [OF p] r(2) by metis
  have "distinct r"
    unfolding distinct_conv_nth using inv r(1) by metis
  moreover have "set r = {0..<n}"
  proof -
    have sub: "set r \<subseteq> {0..<n}" using rn r(1) by (auto simp: in_set_conv_nth)
    have "card (set r) = n" using \<open>distinct r\<close> r(1) by (simp add: distinct_card)
    with sub show ?thesis by (simp add: card_subset_eq)
  qed
  ultimately show "is_permutation n r" by (rule is_permutationI)
qed

lemma length_c_strides [simp]: "length (c_strides s) = length s"
  by (induction s) simp_all

lemma prod_list_permute:
  assumes "is_permutation n p" "length s = n"
  shows "prod_list (map (\<lambda>k. s ! k) p) = prod_list (s :: nat list)"
proof -
  have "prod_list (map (\<lambda>k. s ! k) p) = prod_mset (image_mset (\<lambda>k. s ! k) (mset p))"
    by (metis mset_map prod_mset_prod_list)
  also have "\<dots> = prod_mset (image_mset (\<lambda>k. s ! k) (mset [0..<n]))"
    by (simp only: is_permutation_mset [OF assms(1)])
  also have "\<dots> = prod_list (map (\<lambda>k. s ! k) [0..<n])"
    by (metis mset_map prod_mset_prod_list)
  also have "map (\<lambda>k. s ! k) [0..<n] = s"
    using assms(2) map_nth [of s] by auto
  finally show ?thesis .
qed

lemma np_transpose_perm:
  assumes "is_permutation n p" "length (ndarray.shape a) = n"
  shows "np_transpose a p = Inr \<lparr>ndarray.shape = map (\<lambda>k. ndarray.shape a ! k) p,
            strides = map (\<lambda>k. strides a ! k) p, data = data a\<rparr>"
proof -
  have "\<not> list_ex (\<lambda>k. n \<le> k) p"
    using is_permutation_set [OF assms(1)] by (auto simp: list_ex_iff)
  then show ?thesis
    using assms by (simp add: np_transpose_def is_permutation_length is_permutation_distinct)
qed

lemma reshape_transpose_ravel:
  assumes "is_permutation n p" "length s = n" "length x = prod_list s"
  shows "(case np_reshape x s of
            Inl e \<Rightarrow> Inl e
          | Inr y \<Rightarrow> (case np_transpose y p of Inl e \<Rightarrow> Inl e | Inr y' \<Rightarrow> Inr (ravel y')))
         = Inr (permuted_ravel x s p)"
  using assms
  by (simp add: np_reshape_def np_transpose_perm [where n = n] ravel_def item_def
      permuted_ravel_def)

lemma length_permuted_ravel:
  assumes "is_permutation n p" "length s = n"
  shows "length (permuted_ravel x s p) = prod_list s"
  by (simp add: permuted_ravel_def length_ndindex prod_list_permute [OF assms])

lemma valid_index_length: "valid_index s idx \<Longrightarrow> length idx = length s"
  by (simp add: valid_index_def list_all2_lengthD)

lemma valid_index_nth: "valid_index s idx \<Longrightarrow> k < length s \<Longrightarrow> idx ! k < s ! k"
  by (simp add: valid_index_def list_all2_conv_all_nth)

lemma valid_index_permute:
  assumes "is_permutation n p" "length s = n" "valid_index s i"
  shows "valid_index (map (\<lambda>k. s ! k) p) (map (\<lambda>k. i ! k) p)"
  unfolding valid_index_def list_all2_conv_all_nth
  using assms is_permutation_nth_less [OF assms(1)]
  by (auto simp: is_permutation_length valid_index_nth)

text \<open>The element of the transposed array at a permuted multi-index.\<close>

lemma permuted_ravel_nth:
  assumes p: "is_permutation n p" and s: "length s = n" and i: "valid_index s i"
  shows "permuted_ravel x s p ! offset (c_strides (map (\<lambda>k. s ! k) p)) (map (\<lambda>k. i ! k) p)
         = x ! offset (c_strides s) i"
proof -
  let ?dd = "map (\<lambda>k. s ! k) p" and ?j = "map (\<lambda>k. i ! k) p"
  have j: "valid_index ?dd ?j" by (rule valid_index_permute [OF p s i])
  from offset_c_strides [OF j]
  have off: "offset (c_strides ?dd) ?j < prod_list ?dd"
    "ndindex ?dd ! offset (c_strides ?dd) ?j = ?j" by simp_all
  have "permuted_ravel x s p ! offset (c_strides ?dd) ?j
        = x ! offset (map (\<lambda>k. c_strides s ! k) p) ?j"
    using off by (simp add: permuted_ravel_def length_ndindex)
  also have "\<dots> = x ! offset (c_strides s) i"
    using offset_permute [OF p, of i "c_strides s"] valid_index_length [OF i] s by simp
  finally show ?thesis .
qed

lemma permuted_ravel_roundtrip:
  assumes p: "is_permutation n p" and q: "is_permutation n q"
    and inv: "\<forall>k<n. p ! (q ! k) = k" and s: "length s = n" and x: "length x = prod_list s"
  shows "permuted_ravel (permuted_ravel x s p) (map (\<lambda>k. s ! k) p) q = x"
proof (rule nth_equalityI)
  let ?dd = "map (\<lambda>k. s ! k) p"
  have lp: "length p = n" and lq: "length q = n"
    using p q by (simp_all add: is_permutation_length)
  have dd: "length ?dd = n" by (simp add: lp)
  have bk: "map (\<lambda>k. ?dd ! k) q = s"
    using inv is_permutation_nth_less [OF q] by (auto intro!: nth_equalityI simp: lq lp s)
  show len: "length (permuted_ravel (permuted_ravel x s p) ?dd q) = length x"
    by (simp add: length_permuted_ravel [OF q dd] prod_list_permute [OF p s] x)
  fix g assume "g < length (permuted_ravel (permuted_ravel x s p) ?dd q)"
  then have g: "g < prod_list s" using len x by simp
  let ?i = "ndindex s ! g"
  from ndindex_nth [OF g] have i: "valid_index s ?i" "offset (c_strides s) ?i = g" by simp_all
  let ?j = "map (\<lambda>k. ?i ! k) p"
  have li: "length ?i = n" using valid_index_length [OF i(1)] s by simp
  have ij: "map (\<lambda>k. ?j ! k) q = ?i"
    using inv is_permutation_nth_less [OF q] by (auto intro!: nth_equalityI simp: lq lp li)
  have "permuted_ravel (permuted_ravel x s p) ?dd q ! g
        = permuted_ravel x s p ! offset (map (\<lambda>k. c_strides ?dd ! k) q) ?i"
    using g by (simp add: permuted_ravel_def bk length_ndindex del: length_map)
  also have "offset (map (\<lambda>k. c_strides ?dd ! k) q) ?i
             = offset (map (\<lambda>k. c_strides ?dd ! k) q) (map (\<lambda>k. ?j ! k) q)"
    by (simp only: ij)
  also have "\<dots> = offset (c_strides ?dd) ?j"
    by (rule offset_permute [OF q]) (simp_all add: lp)
  also have "permuted_ravel x s p ! \<dots> = x ! offset (c_strides s) ?i"
    by (rule permuted_ravel_nth [OF p s i(1)])
  finally show "permuted_ravel (permuted_ravel x s p) ?dd q ! g = x ! g"
    by (simp add: i(2))
qed

section \<open>The Transpose constructor\<close>

lemma mapE_Inr:
  "mapE f xs = Inr ys \<Longrightarrow> length ys = length xs \<and> (\<forall>k<length xs. f (xs ! k) = Inr (ys ! k))"
proof (induction xs arbitrary: ys)
  case Nil
  then show ?case by simp
next
  case (Cons x xs)
  then obtain y ys' where y: "f x = Inr y" "mapE f xs = Inr ys'" "ys = y # ys'"
    by (auto split: sum.splits)
  from Cons.IH [OF y(2)] show ?case by (auto simp: y less_Suc_eq_0_disj)
qed

lemma mapE_Inl:
  assumes "list_ex (\<lambda>x. f x = Inl e) xs" and "list_all (\<lambda>x. f x = Inl e \<or> (\<exists>y. f x = Inr y)) xs"
  shows "mapE f xs = Inl e"
  using assms
proof (induction xs)
  case Nil
  then show ?case by simp
next
  case (Cons x xs)
  show ?case
  proof (cases "f x")
    case (Inl e')
    with Cons.prems(2) have "e' = e" by simp
    with Inl show ?thesis by simp
  next
    case (Inr y)
    with Cons.prems have "list_ex (\<lambda>x. f x = Inl e) xs" "list_all (\<lambda>x. f x = Inl e \<or> (\<exists>y. f x = Inr y)) xs"
      by simp_all
    from Cons.IH [OF this] Inr show ?thesis by simp
  qed
qed

lemma normalize_axis_index_less: "normalize_axis_index ax n = Inr k \<Longrightarrow> k < n"
  by (auto simp: normalize_axis_index_def split: if_splits)

lemma normalized_axes_less:
  assumes "mapE (\<lambda>ax. normalize_axis_index ax n) axs = Inr p"
  shows "\<forall>k\<in>set p. k < n"
proof
  fix k assume "k \<in> set p"
  then obtain j where "j < length p" "p ! j = k" by (auto simp: in_set_conv_nth)
  with mapE_Inr [OF assms] have "normalize_axis_index (axs ! j) n = Inr k" by simp
  then show "k < n" by (rule normalize_axis_index_less)
qed

lemma length_np_unique: "length (np_unique xs) = card (set xs)"
  by (simp add: np_unique_def length_remdups_card_conv)

lemma replicate_update_same: "(replicate m x)[i := x] = replicate m x"
  by (induction m arbitrary: i) (auto split: nat.split)

lemma foldl_update_const: "foldl (\<lambda>b i. b[i := x]) (replicate m x) idx = replicate m x"
  by (induction idx) (simp_all add: replicate_update_same)

text \<open>After the uniqueness check, the first index assignment leaves a permutation in
  \<open>axesd\<close>.\<close>

lemma axesd_permutation:
  assumes p: "\<forall>k\<in>set p. k < n" and u: "length (np_unique p) = n"
    and r: "np_setitem (np_zeros n) p (np_arange n) = Inr r"
  shows "is_permutation n r \<and> (length p = n \<longrightarrow> is_permutation n p \<and> (\<forall>k<n. r ! (p ! k) = k))"
proof -
  have card: "card (set p) = n" using u by (simp add: length_np_unique)
  have sub: "set p \<subseteq> {0..<n}" using p by auto
  then have set: "set p = {0..<n}" using card by (simp add: card_subset_eq)
  show ?thesis
  proof (cases "length p = n")
    case True
    then have "distinct p" using card by (simp add: card_distinct)
    then have perm: "is_permutation n p" using set by (rule is_permutationI)
    from np_setitem_perm [OF perm, of "np_arange n" "np_zeros n"] r
    have "length r = n" "\<forall>k<n. r ! (p ! k) = k"
      by (auto simp: np_arange_def np_zeros_def)
    with inverse_permutation(1) [OF perm, of r] perm True show ?thesis by simp
  next
    case False
    have inb: "\<not> list_ex (\<lambda>i. length (np_zeros n) \<le> i) p"
      using p by (auto simp: list_ex_iff np_zeros_def)
    have n1: "n = 1"
      using r False inb by (simp add: np_setitem_def np_arange_def split: if_splits)
    have "r = foldl (\<lambda>b i. b[i := hd (np_arange n)]) (np_zeros n) p"
      using r False inb n1 by (simp add: np_setitem_def np_arange_def)
    then have "r = [0]"
      using foldl_update_const [of 0 1 p] by (simp add: np_arange_def np_zeros_def n1)
    with n1 False show ?thesis by (simp add: is_permutation_def)
  qed
qed

lemma np_setitem_perm_map:
  assumes "is_permutation n p" "length vals = n" "length a = n"
  shows "\<exists>r. np_setitem a p vals = Inr r \<and> length r = n \<and> (\<forall>k<n. r ! (p ! k) = vals ! k)
           \<and> map (\<lambda>k. r ! k) p = vals"
proof -
  from np_setitem_perm [OF assms] obtain r where
    r: "np_setitem a p vals = Inr r" "length r = n" "\<forall>k<n. r ! (p ! k) = vals ! k" by blast
  have "map (\<lambda>k. r ! k) p = vals"
    using r(3) assms(2) is_permutation_length [OF assms(1)] by (auto intro!: nth_equalityI)
  with r show ?thesis by blast
qed

text \<open>What a successful construction leaves in the fields.\<close>

lemma Transpose_init_Inr:
  assumes "Transpose_init dims0 axes0 dt nm = Inr t"
  shows "\<exists>p. mapE (\<lambda>ax. normalize_axis_index ax (length dims0)) axes0 = Inr p
          \<and> length (np_unique p) = length dims0
          \<and> np_setitem (np_zeros (length dims0)) p (np_arange (length dims0)) = Inr (axesd t)
          \<and> np_setitem (np_zeros (length dims0)) (axesd t) dims0 = Inr (Transpose.dimsd t)
          \<and> Transpose.dims t = dims0 \<and> axes t = p
          \<and> Transpose.shape t = (np_prod (Transpose.dimsd t), np_prod dims0)"
  using assms unfolding Transpose_init_def Let_def
  by (auto split: sum.splits if_splits)

lemma Transpose_init_permutation:
  assumes n: "mapE (\<lambda>ax. normalize_axis_index ax (length dims0)) axes0 = Inr p"
    and p: "is_permutation (length dims0) p"
  shows "\<exists>t. Transpose_init dims0 axes0 dt nm = Inr t
          \<and> Transpose.dims t = dims0 \<and> axes t = p
          \<and> is_permutation (length dims0) (axesd t)
          \<and> (\<forall>k<length dims0. axesd t ! (p ! k) = k)
          \<and> (\<forall>k<length dims0. p ! (axesd t ! k) = k)
          \<and> length (Transpose.dimsd t) = length dims0
          \<and> (\<forall>k<length dims0. Transpose.dimsd t ! (axesd t ! k) = dims0 ! k)
          \<and> Transpose.dimsd t = map (\<lambda>k. dims0 ! k) p
          \<and> Transpose.shape t = (np_prod (Transpose.dimsd t), np_prod dims0)"
proof -
  let ?n = "length dims0"
  have u: "length (np_unique p) = ?n"
    using is_permutation_set [OF p] by (simp add: length_np_unique)
  from np_setitem_perm [OF p, of "np_arange ?n" "np_zeros ?n"] obtain q where
    q: "np_setitem (np_zeros ?n) p (np_arange ?n) = Inr q" "length q = ?n"
       "\<forall>k<?n. q ! (p ! k) = k"
    by (auto simp: np_arange_def np_zeros_def)
  from inverse_permutation [OF p q(2,3)] have
    qp: "is_permutation ?n q" and inv: "\<forall>m<?n. p ! (q ! m) = m" by simp_all
  from np_setitem_perm [OF qp, of dims0 "np_zeros ?n"] obtain dd where
    dd: "np_setitem (np_zeros ?n) q dims0 = Inr dd" "length dd = ?n"
        "\<forall>k<?n. dd ! (q ! k) = dims0 ! k"
    by (auto simp: np_zeros_def)
  have "dd = map (\<lambda>k. dims0 ! k) p"
  proof (rule nth_equalityI)
    show "length dd = length (map (\<lambda>k. dims0 ! k) p)"
      by (simp add: dd(2) is_permutation_length [OF p])
    fix m assume "m < length dd"
    then have m: "m < ?n" by (simp add: dd(2))
    then have "dd ! (q ! (p ! m)) = dims0 ! (p ! m)"
      using dd(3) is_permutation_nth_less [OF p m] by blast
    then show "dd ! m = map (\<lambda>k. dims0 ! k) p ! m"
      using q(3) m by (simp add: is_permutation_length [OF p])
  qed
  then show ?thesis
    using n u q dd qp inv
    by (simp add: Transpose_init_def)
qed

section \<open>Forward and adjoint application of Transpose\<close>

lemma Transpose_matvec_perm:
  assumes n: "mapE (\<lambda>ax. normalize_axis_index ax (length dims0)) axes0 = Inr p"
    and p: "is_permutation (length dims0) p"
    and t: "Transpose_init dims0 axes0 dt nm = Inr t"
    and x: "length (x :: 'a list) = prod_list dims0"
  shows "Transpose_matvec t x = Inr (permuted_ravel x dims0 p)"
proof -
  from Transpose_init_permutation [OF n p, of dt nm] t
  have d: "Transpose.dims t = dims0" and a: "axes t = p" by auto
  show ?thesis
    unfolding Transpose_matvec_def d a
    by (rule reshape_transpose_ravel [OF p refl x])
qed

lemma Transpose_rmatvec_perm:
  assumes n: "mapE (\<lambda>ax. normalize_axis_index ax (length dims0)) axes0 = Inr p"
    and p: "is_permutation (length dims0) p"
    and t: "Transpose_init dims0 axes0 dt nm = Inr t"
    and y: "length (y :: 'a list) = prod_list dims0"
  shows "Transpose_rmatvec t y = Inr (permuted_ravel y (map (\<lambda>k. dims0 ! k) p) (axesd t))"
proof -
  from Transpose_init_permutation [OF n p, of dt nm] t
  have q: "is_permutation (length dims0) (axesd t)" and dd: "Transpose.dimsd t = map (\<lambda>k. dims0 ! k) p"
    by auto
  have len: "length (map (\<lambda>k. dims0 ! k) p) = length dims0"
    by (simp add: is_permutation_length [OF p])
  have y': "length y = prod_list (map (\<lambda>k. dims0 ! k) p)"
    by (simp add: y prod_list_permute [OF p refl])
  show ?thesis
    unfolding Transpose_rmatvec_def dd
    by (rule reshape_transpose_ravel [OF q len y'])
qed

text \<open>
  Claim C1. For every Transpose operator built from a shape \<open>dims\<close> and axes that, once
  normalised, are a permutation of \<^verbatim>\<open>range(len(dims))\<close>, and every flat input \<open>x\<close> of
  length \<^verbatim>\<open>prod(dims)\<close>: construction succeeds, the forward application returns some
  \<open>y\<close>, and the adjoint applied to \<open>y\<close> returns \<open>x\<close> itself.
\<close>

theorem Transpose_rmatvec_matvec:
  assumes "mapE (\<lambda>ax. normalize_axis_index ax (length dims0)) axes0 = Inr p"
    and "is_permutation (length dims0) p"
    and "length (x :: 'a list) = prod_list dims0"
  shows "\<exists>t y. Transpose_init dims0 axes0 dt nm = Inr t
           \<and> Transpose_matvec t x = Inr y \<and> Transpose_rmatvec t y = Inr x"
proof -
  from Transpose_init_permutation [OF assms(1,2), of dt nm] obtain t where
    t: "Transpose_init dims0 axes0 dt nm = Inr t"
    and q: "is_permutation (length dims0) (axesd t)"
    and inv: "\<forall>k<length dims0. p ! (axesd t ! k) = k"
    by blast
  let ?y = "permuted_ravel x dims0 p"
  have fwd: "Transpose_matvec t x = Inr ?y"
    by (rule Transpose_matvec_perm [OF assms(1,2) t assms(3)])
  have "length ?y = prod_list dims0"
    by (rule length_permuted_ravel [OF assms(2) refl])
  then have "Transpose_rmatvec t ?y
             = Inr (permuted_ravel ?y (map (\<lambda>k. dims0 ! k) p) (axesd t))"
    by (rule Transpose_rmatvec_perm [OF assms(1,2) t])
  also have "permuted_ravel ?y (map (\<lambda>k. dims0 ! k) p) (axesd t) = x"
    by (rule permuted_ravel_roundtrip [OF assms(2) q inv refl assms(3)])
  finally show ?thesis using t fwd by blast
qed

theorem Transpose_rmatvec_matvec_witness:
  "\<exists>t y. Transpose_init [2, 3] [-1, 0] (RealT Float64) ''T'' = Inr t
      \<and> Transpose_matvec t [10, 11, 12, 13, 14, 15 :: int] = Inr y
      \<and> Transpose_rmatvec t y = Inr [10, 11, 12, 13, 14, 15]"
proof -
  have n: "mapE (\<lambda>ax. normalize_axis_index ax (length [2, 3 :: nat])) [-1, 0] = Inr [1, 0]"
    by (simp add: normalize_axis_index_def)
  have p: "is_permutation (length [2, 3 :: nat]) [1, 0]"
    by (simp add: is_permutation_def)
  have x: "length [10, 11, 12, 13, 14, 15 :: int] = prod_list [2, 3]"
    by simp
  show ?thesis
    by (rule Transpose_rmatvec_matvec [OF n p x])
qed

lemma mapE_Inl_AxisError:
  "mapE (\<lambda>ax. normalize_axis_index ax n) axs = Inl e \<Longrightarrow> e = AxisError"
proof (induction axs)
  case Nil
  then show ?case by simp
next
  case (Cons a axs)
  then show ?case
    by (cases "normalize_axis_index a n"; cases "mapE (\<lambda>ax. normalize_axis_index ax n) axs")
      (auto simp: normalize_axis_index_def split: if_splits)
qed

lemma np_setitem_Inl:
  "np_setitem a idx vals = Inl e \<Longrightarrow> e = IndexError \<or> e = ValueError ''shape mismatch''"
  by (auto simp: np_setitem_def split: if_splits)

text \<open>The check of the constructor raises its own error exactly when, all axes being in
  range, some direction does not occur among them.\<close>

lemma Transpose_init_missing_axis:
  "Transpose_init dims0 axes0 dt nm = Inl (ValueError ''axes must contain each direction once'')
   \<longleftrightarrow> (\<exists>p. mapE (\<lambda>ax. normalize_axis_index ax (length dims0)) axes0 = Inr p
            \<and> set p \<noteq> {0..<length dims0})"
proof (cases "mapE (\<lambda>ax. normalize_axis_index ax (length dims0)) axes0")
  case (Inl e)
  then have "e = AxisError" by (rule mapE_Inl_AxisError)
  with Inl show ?thesis by (simp add: Transpose_init_def)
next
  case (Inr p)
  let ?n = "length dims0"
  have sub: "set p \<subseteq> {0..<?n}" using normalized_axes_less [OF Inr] by auto
  have iff: "length (np_unique p) \<noteq> ?n \<longleftrightarrow> set p \<noteq> {0..<?n}"
  proof
    assume "length (np_unique p) \<noteq> ?n"
    then show "set p \<noteq> {0..<?n}" by (auto simp: length_np_unique)
  next
    assume "set p \<noteq> {0..<?n}"
    with sub have "card (set p) \<noteq> ?n" by (metis card_subset_eq card_atLeastLessThan diff_zero finite_atLeastLessThan)
    then show "length (np_unique p) \<noteq> ?n" by (simp add: length_np_unique)
  qed
  show ?thesis
  proof (cases "length (np_unique p) \<noteq> ?n")
    case True
    with Inr iff show ?thesis by (simp add: Transpose_init_def)
  next
    case False
    have "Transpose_init dims0 axes0 dt nm \<noteq> Inl (ValueError ''axes must contain each direction once'')"
    proof
      assume e: "Transpose_init dims0 axes0 dt nm = Inl (ValueError ''axes must contain each direction once'')"
      show False
      proof (cases "np_setitem (np_zeros ?n) p (np_arange ?n)")
        case (Inl e1)
        with e Inr False np_setitem_Inl [OF Inl] show False
          by (auto simp: Transpose_init_def)
      next
        case r: (Inr q)
        show False
        proof (cases "np_setitem (np_zeros ?n) q dims0")
          case (Inl e2)
          with e Inr False r np_setitem_Inl [OF Inl] show False
            by (auto simp: Transpose_init_def)
        next
          case (Inr dd)
          with e \<open>mapE (\<lambda>ax. normalize_axis_index ax ?n) axes0 = Inr p\<close> False r show False
            by (simp add: Transpose_init_def)
        qed
      qed
    qed
    with Inr iff False show ?thesis by simp
  qed
qed

text \<open>Extents whose product is below \<open>2 ^ 63\<close> are multiplied without wrap-around.\<close>

lemma np_prod_exact: "prod_list ds < 2 ^ 63 \<Longrightarrow> np_prod ds = int (prod_list ds)"
proof -
  assume b: "prod_list ds < 2 ^ 63"
  let ?v = "int (prod_list ds)"
  have "?v < 2 ^ 63" using b by (metis of_nat_less_iff of_nat_numeral of_nat_power)
  then have "(?v + 2 ^ 63) mod 2 ^ 64 = ?v + 2 ^ 63"
    by (intro mod_pos_pos_trivial) simp_all
  then show ?thesis by (simp add: np_prod_def int64_def)
qed

section \<open>Properties of Transpose\<close>

text \<open>
  Claim C5, as amended. When the normalised axes are a permutation of
  \<^verbatim>\<open>range(len(dims))\<close>, the constructor succeeds and leaves in \<open>axesd\<close> the inverse
  permutation, \<^verbatim>\<open>axesd[axes[i]] = i\<close>, and in \<open>dimsd\<close> the extents with
  \<^verbatim>\<open>dimsd[axesd[i]] = dims[i]\<close>: \<open>dimsd\<close> is \<open>dims\<close> rearranged by \<open>axes\<close>,
  \<^verbatim>\<open>dimsd[k] = dims[axes[k]]\<close>, so that applying \<open>axesd\<close> to \<open>dimsd\<close> yields \<open>dims\<close>. The
  two products of extents are the same number, and \<open>shape\<close> holds it twice: as it is
  when it is below \<open>2 ^ 63\<close>, and in general reduced to the signed 64-bit range.
\<close>

theorem Transpose_init_inverse_permutation:
  assumes "mapE (\<lambda>ax. normalize_axis_index ax (length dims0)) axes0 = Inr p"
    and "is_permutation (length dims0) p"
  shows "\<exists>t. Transpose_init dims0 axes0 dt nm = Inr t
          \<and> Transpose.dims t = dims0 \<and> axes t = p
          \<and> length (axesd t) = length dims0 \<and> is_permutation (length dims0) (axesd t)
          \<and> (\<forall>i<length dims0. axesd t ! (axes t ! i) = i)
          \<and> length (Transpose.dimsd t) = length dims0
          \<and> (\<forall>i<length dims0. Transpose.dimsd t ! (axesd t ! i) = dims0 ! i)
          \<and> Transpose.dimsd t = map (\<lambda>k. dims0 ! k) (axes t)
          \<and> map (\<lambda>k. Transpose.dimsd t ! k) (axesd t) = dims0
          \<and> prod_list (Transpose.dimsd t) = prod_list dims0
          \<and> Transpose.shape t
              = ((int (prod_list (Transpose.dimsd t)) + 2 ^ 63) mod 2 ^ 64 - 2 ^ 63,
                 (int (prod_list dims0) + 2 ^ 63) mod 2 ^ 64 - 2 ^ 63)
          \<and> (prod_list dims0 < 2 ^ 63 \<longrightarrow>
                Transpose.shape t
                  = (int (prod_list (Transpose.dimsd t)), int (prod_list dims0)))"
proof -
  let ?n = "length dims0"
  from Transpose_init_permutation [OF assms, of dt nm] obtain t where
    t: "Transpose_init dims0 axes0 dt nm = Inr t" "Transpose.dims t = dims0" "axes t = p"
      "is_permutation ?n (axesd t)"
      "\<forall>k<?n. axesd t ! (p ! k) = k"
      "length (Transpose.dimsd t) = ?n"
      "\<forall>k<?n. Transpose.dimsd t ! (axesd t ! k) = dims0 ! k"
      "Transpose.dimsd t = map (\<lambda>k. dims0 ! k) p"
      "Transpose.shape t = (np_prod (Transpose.dimsd t), np_prod dims0)"
    by blast
  have la: "length (axesd t) = ?n" by (rule is_permutation_length [OF t(4)])
  have m: "map (\<lambda>k. Transpose.dimsd t ! k) (axesd t) = dims0"
    using t(7) la by (auto intro!: nth_equalityI)
  have pr: "prod_list (Transpose.dimsd t) = prod_list dims0"
    unfolding t(8) by (rule prod_list_permute [OF assms(2) refl])
  have sh: "Transpose.shape t
      = ((int (prod_list (Transpose.dimsd t)) + 2 ^ 63) mod 2 ^ 64 - 2 ^ 63,
         (int (prod_list dims0) + 2 ^ 63) mod 2 ^ 64 - 2 ^ 63)"
    by (simp add: t(9) np_prod_def int64_def)
  have ex: "prod_list dims0 < 2 ^ 63 \<longrightarrow>
      Transpose.shape t = (int (prod_list (Transpose.dimsd t)), int (prod_list dims0))"
    by (simp add: t(9) pr np_prod_exact)
  show ?thesis
    using t(1,2,3,4,5,6,7) la m pr sh ex t(8) [folded t(3)] by (intro exI [of _ t]) simp
qed

theorem Transpose_init_inverse_permutation_witness:
  "\<exists>t. Transpose_init [2, 3, 4] [1, -1, 0] (RealT Float64) ''T'' = Inr t
      \<and> Transpose.dims t = [2, 3, 4] \<and> axes t = [1, 2, 0]
      \<and> axesd t = [2, 0, 1] \<and> Transpose.dimsd t = [3, 4, 2]
      \<and> map (\<lambda>k. Transpose.dimsd t ! k) (axesd t) = [2, 3, 4]
      \<and> Transpose.shape t = (24, 24)"
proof -
  have n: "mapE (\<lambda>ax. normalize_axis_index ax (length [2, 3, 4 :: nat])) [1, -1, 0] = Inr [1, 2, 0]"
    by (simp add: normalize_axis_index_def)
  have p: "is_permutation (length [2, 3, 4 :: nat]) [1, 2, 0]"
    by (simp add: is_permutation_def)
  from Transpose_init_inverse_permutation [OF n p, of "RealT Float64" "''T''"] obtain t where
    c: "Transpose_init [2, 3, 4] [1, -1, 0] (RealT Float64) ''T'' = Inr t
          \<and> Transpose.dims t = [2, 3, 4] \<and> axes t = [1, 2, 0]
          \<and> length (axesd t) = length [2, 3, 4 :: nat]
          \<and> is_permutation (length [2, 3, 4 :: nat]) (axesd t)
          \<and> (\<forall>i<length [2, 3, 4 :: nat]. axesd t ! (axes t ! i) = i)
          \<and> length (Transpose.dimsd t) = length [2, 3, 4 :: nat]
          \<and> (\<forall>i<length [2, 3, 4 :: nat]. Transpose.dimsd t ! (axesd t ! i) = [2, 3, 4] ! i)
          \<and> Transpose.dimsd t = map (\<lambda>k. [2, 3, 4] ! k) (axes t)
          \<and> map (\<lambda>k. Transpose.dimsd t ! k) (axesd t) = [2, 3, 4]
          \<and> prod_list (Transpose.dimsd t) = prod_list [2, 3, 4]
          \<and> Transpose.shape t
              = ((int (prod_list (Transpose.dimsd t)) + 2 ^ 63) mod 2 ^ 64 - 2 ^ 63,
                 (int (prod_list [2, 3, 4]) + 2 ^ 63) mod 2 ^ 64 - 2 ^ 63)
          \<and> (prod_list [2, 3, 4 :: nat] < 2 ^ 63 \<longrightarrow>
                Transpose.shape t
                  = (int (prod_list (Transpose.dimsd t)), int (prod_list [2, 3, 4])))" ..
  note c1 = c [THEN conjunct2]
  note c2 = c1 [THEN conjunct2]
  note c3 = c2 [THEN conjunct2]
  note c5 = c3 [THEN conjunct2, THEN conjunct2]
  note c8 = c5 [THEN conjunct2, THEN conjunct2, THEN conjunct2]
  note c9 = c8 [THEN conjunct2]
  note c12 = c9 [THEN conjunct2, THEN conjunct2, THEN conjunct2]
  have t0: "Transpose_init [2, 3, 4] [1, -1, 0] (RealT Float64) ''T'' = Inr t"
    by (rule c [THEN conjunct1])
  have t1: "Transpose.dims t = [2, 3, 4]" by (rule c1 [THEN conjunct1])
  have t2: "axes t = [1, 2, 0]" by (rule c2 [THEN conjunct1])
  have t3: "length (axesd t) = 3" using c3 [THEN conjunct1] by simp
  have t5: "\<forall>i<length [2, 3, 4 :: nat]. axesd t ! (axes t ! i) = i" by (rule c5 [THEN conjunct1])
  have dd: "Transpose.dimsd t = [3, 4, 2]" using c8 [THEN conjunct1] by (simp add: t2)
  have t9: "map (\<lambda>k. Transpose.dimsd t ! k) (axesd t) = [2, 3, 4]" by (rule c9 [THEN conjunct1])
  have sh: "Transpose.shape t = (24, 24)" using c12 by (simp add: dd)
  have e0: "axesd t ! (axes t ! 0) = 0" by (rule t5 [rule_format]) simp
  have e1: "axesd t ! (axes t ! 1) = 1" by (rule t5 [rule_format]) simp
  have e2: "axesd t ! (axes t ! 2) = 2" by (rule t5 [rule_format]) simp
  have e: "axesd t ! 1 = 0" "axesd t ! 2 = 1" "axesd t ! 0 = 2"
    using e0 e1 e2 unfolding t2 by simp_all
  from t3 obtain a b c where abc: "axesd t = [a, b, c]"
    by (auto simp: numeral_3_eq_3 length_Suc_conv)
  from e have ad: "axesd t = [2, 0, 1]" unfolding abc by simp
  show ?thesis
    by (intro exI [of _ t] conjI) (fact t0 t1 t2 ad dd t9 sh)+
qed

text \<open>
  Claim C5 as stated also says that applying \<open>axes\<close> to \<open>dimsd\<close> yields \<open>dims\<close>. For
  \<^verbatim>\<open>dims = (2, 3, 4)\<close> and \<^verbatim>\<open>axes = (1, 2, 0)\<close> the constructor leaves
  \<^verbatim>\<open>dimsd = (3, 4, 2)\<close>, and \<open>axes\<close> applied to it gives \<^verbatim>\<open>(4, 2, 3)\<close>.
\<close>

theorem Transpose_init_dimsd_counterexample:
  "Transpose_init [2, 3, 4] [1, 2, 0] (RealT Float64) ''T''
     = Inr \<lparr>Transpose.dims = [2, 3, 4], axes = [1, 2, 0], axesd = [2, 0, 1],
            dimsd = [3, 4, 2], shape = (24, 24),
            dtype = RealT Float64, explicit = False, clinear = True, name = ''T''\<rparr>
   \<and> map ((!) [3, 4, 2 :: nat]) [1, 2, 0] = [4, 2, 3]
   \<and> [4, 2, 3] \<noteq> [2, 3, 4 :: nat]"
  by (simp add: Transpose_init_def normalize_axis_index_def np_unique_def np_setitem_def
      np_zeros_def np_arange_def np_prod_def int64_def)

text \<open>
  Claim C9. Whenever the constructor succeeds, \<^verbatim>\<open>prod(dimsd)\<close> equals \<^verbatim>\<open>prod(dims)\<close>
  and the two components of \<open>shape\<close> are the same number. No assumption on the axes
  is made: the constructions that pass the check with repeated axes are covered.
\<close>

theorem Transpose_shape_square:
  assumes "Transpose_init dims0 axes0 dt nm = Inr t"
  shows "prod_list (Transpose.dimsd t) = prod_list dims0
         \<and> fst (Transpose.shape t) = snd (Transpose.shape t)"
proof -
  let ?n = "length dims0"
  from Transpose_init_Inr [OF assms] obtain p where
    n: "mapE (\<lambda>ax. normalize_axis_index ax ?n) axes0 = Inr p"
    and u: "length (np_unique p) = ?n"
    and q: "np_setitem (np_zeros ?n) p (np_arange ?n) = Inr (axesd t)"
    and dd: "np_setitem (np_zeros ?n) (axesd t) dims0 = Inr (Transpose.dimsd t)"
    and sh: "Transpose.shape t = (np_prod (Transpose.dimsd t), np_prod dims0)"
    by blast
  from axesd_permutation [OF normalized_axes_less [OF n] u q]
  have perm: "is_permutation ?n (axesd t)" by simp
  from np_setitem_perm_map [OF perm, of dims0 "np_zeros ?n"] dd
  have len: "length (Transpose.dimsd t) = ?n" and m: "map (\<lambda>k. Transpose.dimsd t ! k) (axesd t) = dims0"
    by (auto simp: np_zeros_def)
  have "prod_list (map (\<lambda>k. Transpose.dimsd t ! k) (axesd t)) = prod_list (Transpose.dimsd t)"
    by (rule prod_list_permute [OF perm len])
  then have "prod_list (Transpose.dimsd t) = prod_list dims0" by (simp add: m)
  then show ?thesis by (simp add: sh np_prod_def)
qed

theorem Transpose_shape_square_witness:
  "Transpose_init [7] [0, -1, 0] (RealT Float64) ''T''
     = Inr \<lparr>Transpose.dims = [7], axes = [0, 0, 0], axesd = [0], dimsd = [7], shape = (7, 7),
            dtype = RealT Float64, explicit = False, clinear = True, name = ''T''\<rparr>
   \<and> prod_list [7 :: nat] = prod_list [7] \<and> fst (7 :: int, 7 :: int) = snd (7 :: int, 7 :: int)"
proof -
  have t: "Transpose_init [7] [0, -1, 0] (RealT Float64) ''T''
     = Inr \<lparr>Transpose.dims = [7], axes = [0, 0, 0], axesd = [0], dimsd = [7], shape = (7, 7),
            dtype = RealT Float64, explicit = False, clinear = True, name = ''T''\<rparr>"
    by (simp add: Transpose_init_def normalize_axis_index_def np_unique_def np_setitem_def
        np_zeros_def np_arange_def np_prod_def int64_def)
  from Transpose_shape_square [OF t] t show ?thesis by simp
qed

text \<open>
  Claim C10. If any axis lies outside \<^verbatim>\<open>[-len(dims), len(dims))\<close>, construction fails
  with the AxisError of the normalisation, whatever the other axes are; the check for
  repeated or missing directions is not reached.
\<close>

theorem Transpose_init_axis_out_of_range:
  assumes "\<exists>ax\<in>set axes0. ax < - int (length dims0) \<or> int (length dims0) \<le> ax"
  shows "Transpose_init dims0 axes0 dt nm = Inl AxisError"
proof -
  let ?f = "\<lambda>ax. normalize_axis_index ax (length dims0)"
  from assms obtain ax where ax: "ax \<in> set axes0"
    "ax < - int (length dims0) \<or> int (length dims0) \<le> ax" by blast
  from ax(2) have "?f ax = Inl AxisError"
    by (auto simp: normalize_axis_index_def)
  with ax(1) have "list_ex (\<lambda>x. ?f x = Inl AxisError) axes0"
    unfolding list_ex_iff by blast
  moreover have "list_all (\<lambda>x. ?f x = Inl AxisError \<or> (\<exists>y. ?f x = Inr y)) axes0"
    by (simp add: list_all_iff normalize_axis_index_def)
  ultimately have "mapE ?f axes0 = Inl AxisError" by (rule mapE_Inl)
  then show ?thesis by (simp add: Transpose_init_def)
qed

theorem Transpose_init_axis_out_of_range_witness:
  "Transpose_init [3, 4] [0, 0, 2] (RealT Float64) ''T'' = Inl AxisError
   \<and> Transpose_init [3, 4] [-3, 1] (RealT Float64) ''T'' = Inl AxisError"
proof -
  have a: "\<exists>ax\<in>set [0, 0, 2 :: int]. ax < - int (length [3, 4 :: nat]) \<or> int (length [3, 4 :: nat]) \<le> ax"
    by simp
  have b: "\<exists>ax\<in>set [-3, 1 :: int]. ax < - int (length [3, 4 :: nat]) \<or> int (length [3, 4 :: nat]) \<le> ax"
    by simp
  show ?thesis
    using Transpose_init_axis_out_of_range [OF a] Transpose_init_axis_out_of_range [OF b]
    by simp
qed

text \<open>
  Claim C6. The check \<^verbatim>\<open>len(np.unique(axes)) != ndims\<close> sees a missing direction but
  not a repeated one. With \<^verbatim>\<open>dims = (5,)\<close> and \<^verbatim>\<open>axes = (0, 0)\<close> construction succeeds;
  with \<^verbatim>\<open>dims = (3, 4)\<close> and \<^verbatim>\<open>axes = (0, 1, 0)\<close> the check passes and the index
  assignment that follows raises numpy's own ValueError; with \<^verbatim>\<open>dims = (3, 4)\<close> and
  \<^verbatim>\<open>axes = (0, 0)\<close> the check raises its error.
\<close>

theorem Transpose_init_repeated_axes:
  "Transpose_init [5] [0, 0] (RealT Float64) ''T''
     = Inr \<lparr>Transpose.dims = [5], axes = [0, 0], axesd = [0], dimsd = [5], shape = (5, 5),
            dtype = RealT Float64, explicit = False, clinear = True, name = ''T''\<rparr>
   \<and> Transpose_init [3, 4] [0, 1, 0] (RealT Float64) ''T'' = Inl (ValueError ''shape mismatch'')
   \<and> Transpose_init [3, 4] [0, 0] (RealT Float64) ''T''
       = Inl (ValueError ''axes must contain each direction once'')"
  by (simp add: Transpose_init_def normalize_axis_index_def np_unique_def np_setitem_def
      np_zeros_def np_arange_def np_prod_def int64_def)

text \<open>
  Claim C8. For a Transpose operator whose normalised axes \<open>p\<close> are a permutation and a
  flat input \<open>x\<close> of length \<^verbatim>\<open>prod(dims)\<close>, the forward application returns a list \<open>y\<close>
  of length \<^verbatim>\<open>prod(dimsd)\<close> which is \<open>x\<close>, read as an array of shape \<open>dims\<close>, with its
  axes permuted: the element of \<open>x\<close> at multi-index \<open>i\<close> is the element of \<open>y\<close>, read
  as an array of shape \<open>dimsd\<close>, at the multi-index whose \<open>k\<close>-th entry is \<open>i[p[k]]\<close>.
  For \<^verbatim>\<open>dims = (2, 3)\<close>, \<^verbatim>\<open>axes = (1, 0)\<close> and \<^verbatim>\<open>x = [0, 1, 2, 3, 4, 5]\<close> the output
  is \<^verbatim>\<open>[0, 3, 1, 4, 2, 5]\<close>.
\<close>

theorem Transpose_matvec_permutes_axes:
  "(\<forall>dims0 axes0 p dt nm (x :: 'a list).
      mapE (\<lambda>ax. normalize_axis_index ax (length dims0)) axes0 = Inr p
      \<and> is_permutation (length dims0) p \<and> length x = prod_list dims0 \<longrightarrow>
      (\<exists>t y. Transpose_init dims0 axes0 dt nm = Inr t \<and> Transpose_matvec t x = Inr y
         \<and> Transpose.dimsd t = map (\<lambda>k. dims0 ! k) p \<and> length y = prod_list (Transpose.dimsd t)
         \<and> (\<forall>i. valid_index dims0 i \<longrightarrow>
               valid_index (Transpose.dimsd t) (map (\<lambda>k. i ! k) p)
               \<and> y ! offset (c_strides (Transpose.dimsd t)) (map (\<lambda>k. i ! k) p)
                   = x ! offset (c_strides dims0) i)))
   \<and> (\<exists>t. Transpose_init [2, 3] [1, 0] (RealT Float64) ''T'' = Inr t
         \<and> Transpose_matvec t [0, 1, 2, 3, 4, 5 :: int] = Inr [0, 3, 1, 4, 2, 5])"
proof (intro conjI allI impI)
  fix dims0 axes0 p dt nm and x :: "'a list"
  assume a: "mapE (\<lambda>ax. normalize_axis_index ax (length dims0)) axes0 = Inr p
      \<and> is_permutation (length dims0) p \<and> length x = prod_list dims0"
  then have n: "mapE (\<lambda>ax. normalize_axis_index ax (length dims0)) axes0 = Inr p"
    and p: "is_permutation (length dims0) p" and x: "length x = prod_list dims0"
    by simp_all
  from Transpose_init_permutation [OF n p, of dt nm] obtain t where
    t: "Transpose_init dims0 axes0 dt nm = Inr t"
    and dd: "Transpose.dimsd t = map (\<lambda>k. dims0 ! k) p"
    by blast
  let ?y = "permuted_ravel x dims0 p"
  have fwd: "Transpose_matvec t x = Inr ?y"
    by (rule Transpose_matvec_perm [OF n p t x])
  have len: "length ?y = prod_list (Transpose.dimsd t)"
    by (simp add: length_permuted_ravel [OF p refl] dd prod_list_permute [OF p refl])
  have el: "\<forall>i. valid_index dims0 i \<longrightarrow>
               valid_index (Transpose.dimsd t) (map (\<lambda>k. i ! k) p)
               \<and> ?y ! offset (c_strides (Transpose.dimsd t)) (map (\<lambda>k. i ! k) p)
                   = x ! offset (c_strides dims0) i"
    unfolding dd
    using permuted_ravel_nth [OF p refl] valid_index_permute [OF p refl] by blast
  show "\<exists>t y. Transpose_init dims0 axes0 dt nm = Inr t \<and> Transpose_matvec t x = Inr y
         \<and> Transpose.dimsd t = map (\<lambda>k. dims0 ! k) p \<and> length y = prod_list (Transpose.dimsd t)
         \<and> (\<forall>i. valid_index dims0 i \<longrightarrow>
               valid_index (Transpose.dimsd t) (map (\<lambda>k. i ! k) p)
               \<and> y ! offset (c_strides (Transpose.dimsd t)) (map (\<lambda>k. i ! k) p)
                   = x ! offset (c_strides dims0) i)"
    using t fwd dd len el by blast
next
  have t: "Transpose_init [2, 3] [1, 0] (RealT Float64) ''T''
     = Inr \<lparr>Transpose.dims = [2, 3], axes = [1, 0], axesd = [1, 0], dimsd = [3, 2], shape = (6, 6),
            dtype = RealT Float64, explicit = False, clinear = True, name = ''T''\<rparr>"
    by (simp add: Transpose_init_def normalize_axis_index_def np_unique_def np_setitem_def
        np_zeros_def np_arange_def np_prod_def int64_def)
  have "Transpose_matvec \<lparr>Transpose.dims = [2, 3], axes = [1, 0], axesd = [1, 0], dimsd = [3, 2],
            shape = (6, 6), dtype = RealT Float64, explicit = False, clinear = True,
            name = ''T''\<rparr> [0, 1, 2, 3, 4, 5 :: int] = Inr [0, 3, 1, 4, 2, 5]"
    by (simp add: Transpose_matvec_def np_reshape_def np_transpose_def ravel_def item_def
        offset_def upt_conv_Cons)
  with t show "\<exists>t. Transpose_init [2, 3] [1, 0] (RealT Float64) ''T'' = Inr t
         \<and> Transpose_matvec t [0, 1, 2, 3, 4, 5 :: int] = Inr [0, 3, 1, 4, 2, 5]"
    by simp
qed

theorem Transpose_matvec_permutes_axes_witness:
  "\<exists>t y. Transpose_init [2, 3, 4] [2, 0, 1] (RealT Float64) ''T'' = Inr t
      \<and> Transpose_matvec t (map int [0..<24]) = Inr y
      \<and> Transpose.dimsd t = [4, 2, 3] \<and> length y = 24
      \<and> valid_index [2, 3, 4] [1, 2, 3] \<and> valid_index (Transpose.dimsd t) [3, 1, 2]
      \<and> y ! offset (c_strides (Transpose.dimsd t)) [3, 1, 2] = 23"
proof -
  have n: "mapE (\<lambda>ax. normalize_axis_index ax (length [2, 3, 4 :: nat])) [2, 0, 1] = Inr [2, 0, 1]"
    by (simp add: normalize_axis_index_def)
  have p: "is_permutation (length [2, 3, 4 :: nat]) [2, 0, 1]"
    by (simp add: is_permutation_def)
  have x: "length (map int [0..<24]) = prod_list [2, 3, 4]"
    by simp
  have v: "valid_index [2, 3, 4] [1, 2, 3]"
    by (simp add: valid_index_def)
  from Transpose_matvec_permutes_axes [THEN conjunct1, rule_format, OF conjI [OF n conjI [OF p x]],
      of "RealT Float64" "''T''"]
  obtain t y where
    t: "Transpose_init [2, 3, 4] [2, 0, 1] (RealT Float64) ''T'' = Inr t"
      "Transpose_matvec t (map int [0..<24]) = Inr y"
      "Transpose.dimsd t = map (\<lambda>k. [2, 3, 4] ! k) [2, 0, 1]" "length y = prod_list (Transpose.dimsd t)"
    and el: "\<forall>i. valid_index [2, 3, 4] i \<longrightarrow>
               valid_index (Transpose.dimsd t) (map (\<lambda>k. i ! k) [2, 0, 1])
               \<and> y ! offset (c_strides (Transpose.dimsd t)) (map (\<lambda>k. i ! k) [2, 0, 1])
                   = map int [0..<24] ! offset (c_strides [2, 3, 4]) i"
    by blast
  from el v have "valid_index (Transpose.dimsd t) (map (\<lambda>k. [1, 2, 3] ! k) [2, 0, 1])
     \<and> y ! offset (c_strides (Transpose.dimsd t)) (map (\<lambda>k. [1, 2, 3] ! k) [2, 0, 1])
         = map int [0..<24] ! offset (c_strides [2, 3, 4]) [1, 2, 3]"
    by blast
  then have "valid_index (Transpose.dimsd t) [3, 1, 2] \<and> y ! offset (c_strides (Transpose.dimsd t)) [3, 1, 2] = 23"
    by simp
  with t v show ?thesis by auto
qed

section \<open>Matrix products as sums\<close>















lemma MatrixMult_init_complex:
  "complex (fst (MatrixMult_init A0 od dt))
     = (if isinstance_ndarray A0 then iscomplexobj A0 else data_iscomplexobj A0)"
  by (simp add: MatrixMult_init_def Let_def split: option.splits)

text \<open>The flag does not depend on \<open>otherdims\<close> or on the requested dtype.\<close>

lemma MatrixMult_init_complex_None:
  "complex (fst (MatrixMult_init A0 od dt)) = complex (fst (MatrixMult_init A0 None dt'))"
  by (simp add: MatrixMult_init_complex)


text \<open>The flag tells whether the matrix is complex for every matrix but a complex one
  kept in the LIL format.\<close>

lemma MatrixMult_init_complex_agrees:
  "complex (fst (MatrixMult_init A0 od dt)) = iscomplexobj A0
   \<longleftrightarrow> \<not> (\<exists>d M. A0 = ComplexMatrix LIL d M)"
proof (cases A0)
  case (RealMatrix s d M)
  then show ?thesis by (simp add: MatrixMult_init_complex)
next
  case (ComplexMatrix s d M)
  then show ?thesis by (cases s) (simp_all add: MatrixMult_init_complex)
qed











section \<open>Properties of MatrixMult\<close>












text \<open>
  Claim C7. When \<open>A\<close> is complex and the requested dtype is not, the operator's dtype
  becomes the dtype of \<open>A\<close>, which is complex, and one warning is logged. When \<open>A\<close> is
  not complex the dtype is the requested one and nothing is logged; the same holds
  whenever the requested dtype is complex.
\<close>

theorem MatrixMult_init_dtype:
  "(iscomplexobj A0 \<and> \<not> is_complex_dtype dt \<longrightarrow>
      dtype (fst (MatrixMult_init A0 od dt)) = matrix_dtype A0
      \<and> is_complex_dtype (dtype (fst (MatrixMult_init A0 od dt)))
      \<and> snd (MatrixMult_init A0 od dt)
          = [(WARNING, ''Matrix A is a complex object, dtype cast to ''
                         @ dtype_name (matrix_dtype A0))])
   \<and> (\<not> iscomplexobj A0 \<longrightarrow>
      dtype (fst (MatrixMult_init A0 od dt)) = dt \<and> snd (MatrixMult_init A0 od dt) = [])
   \<and> (is_complex_dtype dt \<longrightarrow>
      dtype (fst (MatrixMult_init A0 od dt)) = dt \<and> snd (MatrixMult_init A0 od dt) = [])"
  by (cases A0) (simp_all add: MatrixMult_init_def Let_def split: option.splits)

theorem MatrixMult_init_dtype_witness:
  "dtype (fst (MatrixMult_init
       (ComplexMatrix Dense Complex128 \<lparr>nrows = 1, ncols = 1, elems = [\<i>]\<rparr>) None (RealT Float64)))
     = ComplexT Complex128
   \<and> snd (MatrixMult_init
       (ComplexMatrix Dense Complex128 \<lparr>nrows = 1, ncols = 1, elems = [\<i>]\<rparr>) None (RealT Float64))
     = [(WARNING, ''Matrix A is a complex object, dtype cast to complex128'')]
   \<and> dtype (fst (MatrixMult_init
       (RealMatrix Dense Float32 \<lparr>nrows = 1, ncols = 1, elems = [2]\<rparr>) (Some [3]) (RealT Float64)))
     = RealT Float64
   \<and> snd (MatrixMult_init
       (RealMatrix Dense Float32 \<lparr>nrows = 1, ncols = 1, elems = [2]\<rparr>) (Some [3]) (RealT Float64)) = []"
  using MatrixMult_init_dtype [of "ComplexMatrix Dense Complex128 \<lparr>nrows = 1, ncols = 1, elems = [\<i>]\<rparr>"
      "RealT Float64" None]
    MatrixMult_init_dtype [of "RealMatrix Dense Float32 \<lparr>nrows = 1, ncols = 1, elems = [2]\<rparr>"
      "RealT Float64" "Some [3]"]
  by simp

end
